theory Spec2Isabelle
  imports Complex_Main
begin

section \<open>The lease calculator of app.py\<close>

text \<open>
  The calculation core of \<^verbatim>\<open>app.py\<close> consists of \<^verbatim>\<open>pv_ordinary_annuity\<close> and
  \<^verbatim>\<open>compute_lease\<close>.  Python's \<^verbatim>\<open>int\<close> is \<^typ>\<open>int\<close>.  The program is
  embedded twice.  In the first embedding Python's \<^verbatim>\<open>float\<close> is \<^typ>\<open>real\<close>: the
  arithmetic is exact, so rounding, overflow to infinity and NaN are outside
  that model.  It serves the results that do not depend on rounding.  In the
  second embedding a \<^verbatim>\<open>float\<close> is a binary64 number and every operation rounds
  to nearest, ties to even; it serves the results about the equations between
  the columns of a row, which hold or fail by rounding.  In both, the two
  operations of the core that can raise, true division and a power with a
  negative exponent, return an error value.
\<close>

subsection \<open>Arithmetic that can raise\<close>

datatype py_error = ZeroDivisionError

definition py_truediv :: "real \<Rightarrow> real \<Rightarrow> py_error + real" where
  "py_truediv a b = (if b = 0 then Inl ZeroDivisionError else Inr (a / b))"

text \<open>\<^verbatim>\<open>x ** k\<close> for a float \<open>x\<close> and an int \<open>k\<close>: zero to a negative power raises.\<close>

definition py_pow :: "real \<Rightarrow> int \<Rightarrow> py_error + real" where
  "py_pow x k = (if x = 0 \<and> k < 0 then Inl ZeroDivisionError else Inr (x powi k))"

subsection \<open>Present value of an ordinary annuity\<close>

text \<open>
  \<^verbatim>\<open>
  def pv_ordinary_annuity(pmt, r, n):
      if r == 0:
          return pmt * n
      return pmt * (1 - (1 + r) ** -n) / r
  \<close>
\<close>

definition pv_ordinary_annuity :: "real \<Rightarrow> real \<Rightarrow> int \<Rightarrow> py_error + real" where
  "pv_ordinary_annuity pmt r n =
     (if r = 0 then Inr (pmt * of_int n)
      else case py_pow (1 + r) (- n) of
             Inl e \<Rightarrow> Inl e
           | Inr p \<Rightarrow> py_truediv (pmt * (1 - p)) r)"

subsection \<open>Schedule rows and the result\<close>

text \<open>One dict of \<^verbatim>\<open>rows\<close>, with the keys of the source.\<close>

record schedule_row =
  Period :: int
  Opening :: real
  Interest :: real
  Payment :: real
  Principal :: real
  Closing :: real

text \<open>The dict returned by \<^verbatim>\<open>compute_lease\<close>; the data frame is the list of its rows.\<close>

record lease_result =
  lease_liability_initial :: real
  rou_initial :: real
  annual_dep :: real
  dep_years :: int
  schedule :: "schedule_row list"

subsection \<open>The amortisation loop\<close>

text \<open>
  The body of \<^verbatim>\<open>for t in range(1, n + 1)\<close>: the row appended in period \<open>t\<close>
  from the current \<open>opening\<close>.
\<close>

definition period_row :: "int \<Rightarrow> real \<Rightarrow> real \<Rightarrow> int \<Rightarrow> real \<Rightarrow> schedule_row" where
  "period_row n pmt r t opening =
     (let interest = opening * r;
          principal = pmt - interest;
          (principal, payment) =
             (if t = n then (opening, interest + opening) else (principal, pmt));
          closing = opening - principal
      in \<lparr>Period = t, Opening = opening, Interest = interest,
          Payment = payment, Principal = principal, Closing = closing\<rparr>)"

text \<open>
  The loop itself, from the counter \<open>t\<close> up to \<open>n\<close>, threading \<open>opening\<close> and
  \<open>rows\<close>.
\<close>

function schedule_loop ::
  "int \<Rightarrow> real \<Rightarrow> real \<Rightarrow> int \<Rightarrow> real \<Rightarrow> schedule_row list \<Rightarrow> schedule_row list" where
  "schedule_loop n pmt r t opening rows =
     (if t \<le> n then
        let row = period_row n pmt r t opening
        in schedule_loop n pmt r (t + 1) (Closing row) (rows @ [row])
      else rows)"
  by pat_completeness auto
termination
  by (relation "measure (\<lambda>(n, pmt, r, t, opening, rows). nat (n + 1 - t))") auto

declare schedule_loop.simps [simp del]

subsection \<open>compute\_lease\<close>

text \<open>
  \<^verbatim>\<open>
  def compute_lease(lease_term, annual_payment, rate, pay_in_advance,
                    idc, prepaid, incentives, useful_life):
      r = rate
      n = lease_term
      pmt = annual_payment
      if pay_in_advance:
          pv = pmt + pv_ordinary_annuity(pmt, r, n - 1)
      else:
          pv = pv_ordinary_annuity(pmt, r, n)
      lease_liability_initial = pv
      rou_initial = lease_liability_initial + idc + prepaid - incentives
      rows = []
      opening = lease_liability_initial
      if pay_in_advance:
          principal = min(pmt, opening)
          closing = opening - principal
          rows.append(dict(Period=0, Opening=opening, Interest=0.0, Payment=pmt,
                           Principal=principal, Closing=closing))
          opening = closing
      for t in range(1, n + 1):
          interest = opening * r
          principal = pmt - interest
          if t == n:
              principal = opening
              payment = interest + principal
          else:
              payment = pmt
          closing = opening - principal
          rows.append(dict(Period=t, Opening=opening, Interest=interest,
                           Payment=payment, Principal=principal, Closing=closing))
          opening = closing
      schedule = pd.DataFrame(rows)
      dep_years = min(lease_term, useful_life)
      annual_dep = rou_initial / dep_years
      return {...}
  \<close>
  The period-0 row of a lease paid in advance:
\<close>

definition advance_row :: "real \<Rightarrow> real \<Rightarrow> schedule_row" where
  "advance_row pmt opening =
     (let principal = min pmt opening;
          closing = opening - principal
      in \<lparr>Period = 0, Opening = opening, Interest = 0,
          Payment = pmt, Principal = principal, Closing = closing\<rparr>)"

text \<open>The first \<^verbatim>\<open>if\<close>, which computes \<^verbatim>\<open>pv\<close>:\<close>

definition initial_pv :: "real \<Rightarrow> real \<Rightarrow> int \<Rightarrow> bool \<Rightarrow> py_error + real" where
  "initial_pv pmt r n pay_in_advance =
     (if pay_in_advance then
        (case pv_ordinary_annuity pmt r (n - 1) of
           Inl e \<Rightarrow> Inl e
         | Inr v \<Rightarrow> Inr (pmt + v))
      else pv_ordinary_annuity pmt r n)"

text \<open>
  The whole function.  The local variables that share their name with a key of
  the returned dict carry a prime.
\<close>

definition compute_lease ::
  "int \<Rightarrow> real \<Rightarrow> real \<Rightarrow> bool \<Rightarrow> real \<Rightarrow> real \<Rightarrow> real \<Rightarrow> int \<Rightarrow> py_error + lease_result" where
  "compute_lease lease_term annual_payment rate pay_in_advance idc prepaid incentives useful_life =
     (let r = rate; n = lease_term; pmt = annual_payment in
      case initial_pv pmt r n pay_in_advance of
        Inl e \<Rightarrow> Inl e
      | Inr pv \<Rightarrow>
          (let lease_liability_initial' = pv;
               rou_initial' = lease_liability_initial' + idc + prepaid - incentives;
               opening = lease_liability_initial';
               (rows, opening) =
                  (if pay_in_advance
                   then ([advance_row pmt opening], Closing (advance_row pmt opening))
                   else ([], opening));
               rows = schedule_loop n pmt r 1 opening rows;
               dep_years' = min lease_term useful_life
           in (case py_truediv rou_initial' (of_int dep_years') of
                 Inl e \<Rightarrow> Inl e
               | Inr annual_dep' \<Rightarrow>
                   Inr \<lparr>lease_liability_initial = lease_liability_initial',
                        rou_initial = rou_initial',
                        annual_dep = annual_dep',
                        dep_years = dep_years',
                        schedule = rows\<rparr>)))"

subsection \<open>Auxiliary notions for the statements\<close>

text \<open>
  The value that \<^verbatim>\<open>pv_ordinary_annuity\<close> returns when it does not raise, and the
  liability that \<^verbatim>\<open>compute_lease\<close> starts from.
\<close>

definition annuity :: "real \<Rightarrow> real \<Rightarrow> int \<Rightarrow> real" where
  "annuity pmt r k = (if r = 0 then pmt * of_int k else pmt * (1 - (1 + r) powi (- k)) / r)"

definition liability :: "real \<Rightarrow> real \<Rightarrow> int \<Rightarrow> bool \<Rightarrow> real" where
  "liability pmt r n pay_in_advance =
     (if pay_in_advance then pmt + annuity pmt r (n - 1) else annuity pmt r n)"

section \<open>The same program in binary64 arithmetic\<close>

subsection \<open>Doubles\<close>

text \<open>
  A finite double is kept as a pair of integers, mantissa and exponent, and
  stands for \<open>mant * 2 ^ expo\<close>.  The pair is not normalised: equal numbers can
  have different pairs, and \<open>dval\<close> gives the number.
\<close>

datatype double = Double (mant: int) (expo: int)

definition dval :: "double \<Rightarrow> real" where
  "dval x = of_int (mant x) * 2 powi expo x"

text \<open>Python's \<^verbatim>\<open>int.bit_length\<close> for a non-negative integer.\<close>

function bit_length :: "int \<Rightarrow> int" where
  "bit_length n = (if n \<le> 0 then 0 else 1 + bit_length (n div 2))"
  by pat_completeness auto
termination
  by (relation "measure nat") auto

declare bit_length.simps [simp del]

text \<open>
  Rounding of the exact number \<open>m * 2 ^ e\<close> to binary64: 53 significant bits,
  or fewer below \<open>2 ^ - 1022\<close> where the spacing stays \<open>2 ^ - 1074\<close> (gradual
  underflow); to nearest, ties to the even mantissa.  Overflow to infinity,
  NaN and the sign of zero are not modelled: with a payment and costs of at
  most a million, a rate of at most one and at most fifty periods no
  operation of the program comes near \<open>2 ^ 1024\<close>.
\<close>

definition rnd :: "int \<Rightarrow> int \<Rightarrow> double" where
  "rnd m e =
     (let k = max (bit_length \<bar>m\<bar> + e - 53) (- 1074) - e in
      if k \<le> 0 then Double m e
      else
        let a = \<bar>m\<bar>;
            q = a div 2 ^ nat k;
            rem = a mod 2 ^ nat k;
            q' = (if 2 ^ nat k < 2 * rem \<or> (2 * rem = 2 ^ nat k \<and> odd q) then q + 1 else q)
        in Double (sgn m * q') (e + k))"

text \<open>
  The operations: the exact result, rounded.  \<open>fl_of_int\<close> is the conversion
  that Python applies to the \<^verbatim>\<open>int\<close> operand of a mixed operation.
\<close>

definition fl_of_int :: "int \<Rightarrow> double" where
  "fl_of_int n = rnd n 0"

definition fl_add :: "double \<Rightarrow> double \<Rightarrow> double" where
  "fl_add x y =
     (let e = min (expo x) (expo y)
      in rnd (mant x * 2 ^ nat (expo x - e) + mant y * 2 ^ nat (expo y - e)) e)"

definition fl_sub :: "double \<Rightarrow> double \<Rightarrow> double" where
  "fl_sub x y =
     (let e = min (expo x) (expo y)
      in rnd (mant x * 2 ^ nat (expo x - e) - mant y * 2 ^ nat (expo y - e)) e)"

definition fl_mul :: "double \<Rightarrow> double \<Rightarrow> double" where
  "fl_mul x y = rnd (mant x * mant y) (expo x + expo y)"

text \<open>
  Division: the quotient is computed to at least 55 bits, and a last bit
  records whether the division left a remainder, so that the rounding sees
  on which side of a tie the exact quotient lies.
\<close>

definition fl_truediv :: "double \<Rightarrow> double \<Rightarrow> py_error + double" where
  "fl_truediv x y =
     (if mant y = 0 then Inl ZeroDivisionError
      else
        let s = nat (max 0 (55 + bit_length (abs (mant y)) - bit_length (abs (mant x))));
            a = abs (mant x) * 2 ^ s;
            q = a div abs (mant y);
            sticky = (if a mod abs (mant y) = 0 then 0 else 1)
        in Inr (rnd (sgn (mant x) * sgn (mant y) * (2 * q + sticky)) (expo x - expo y - int s - 1)))"

text \<open>
  \<^verbatim>\<open>x ** k\<close> for a float \<open>x\<close> and an int \<open>k\<close>.  Python hands it to the \<^verbatim>\<open>pow\<close>
  of the C library; it is taken here as correctly rounded.
\<close>

definition fl_pow :: "double \<Rightarrow> int \<Rightarrow> py_error + double" where
  "fl_pow x k =
     (if 0 \<le> k then Inr (rnd (mant x ^ nat k) (expo x * k))
      else if mant x = 0 then Inl ZeroDivisionError
      else fl_truediv (Double 1 0) (Double (mant x ^ nat (- k)) (expo x * (- k))))"

text \<open>\<^verbatim>\<open>x < y\<close>, and \<^verbatim>\<open>min(x, y)\<close>, which returns \<open>x\<close> unless \<open>y\<close> is smaller.\<close>

definition fl_less :: "double \<Rightarrow> double \<Rightarrow> bool" where
  "fl_less x y =
     (let e = min (expo x) (expo y)
      in mant x * 2 ^ nat (expo x - e) < mant y * 2 ^ nat (expo y - e))"

definition fl_min :: "double \<Rightarrow> double \<Rightarrow> double" where
  "fl_min x y = (if fl_less y x then y else x)"

text \<open>
  The distance of a number to the nearest double is at most this: half a
  unit in the last place.
\<close>

definition rounding_bound :: "real \<Rightarrow> real" where
  "rounding_bound x = max (\<bar>x\<bar> / 2 ^ 53) (1 / 2 ^ 1075)"

subsection \<open>The program\<close>

text \<open>
  The definitions of the first part again, line by line, with the operations
  on doubles.  The names carry the suffix \<open>_d\<close>.
\<close>

definition pv_ordinary_annuity_d :: "double \<Rightarrow> double \<Rightarrow> int \<Rightarrow> py_error + double" where
  "pv_ordinary_annuity_d pmt r n =
     (if mant r = 0 then Inr (fl_mul pmt (fl_of_int n))
      else case fl_pow (fl_add (fl_of_int 1) r) (- n) of
             Inl e \<Rightarrow> Inl e
           | Inr p \<Rightarrow> fl_truediv (fl_mul pmt (fl_sub (fl_of_int 1) p)) r)"

record schedule_row_d =
  Period_d :: int
  Opening_d :: double
  Interest_d :: double
  Payment_d :: double
  Principal_d :: double
  Closing_d :: double

record lease_result_d =
  lease_liability_initial_d :: double
  rou_initial_d :: double
  annual_dep_d :: double
  dep_years_d :: int
  schedule_d :: "schedule_row_d list"

definition period_row_d :: "int \<Rightarrow> double \<Rightarrow> double \<Rightarrow> int \<Rightarrow> double \<Rightarrow> schedule_row_d" where
  "period_row_d n pmt r t opening =
     (let interest = fl_mul opening r;
          principal = fl_sub pmt interest;
          (principal, payment) =
             (if t = n then (opening, fl_add interest opening) else (principal, pmt));
          closing = fl_sub opening principal
      in \<lparr>Period_d = t, Opening_d = opening, Interest_d = interest,
          Payment_d = payment, Principal_d = principal, Closing_d = closing\<rparr>)"

function schedule_loop_d ::
  "int \<Rightarrow> double \<Rightarrow> double \<Rightarrow> int \<Rightarrow> double \<Rightarrow> schedule_row_d list \<Rightarrow> schedule_row_d list" where
  "schedule_loop_d n pmt r t opening rows =
     (if t \<le> n then
        let row = period_row_d n pmt r t opening
        in schedule_loop_d n pmt r (t + 1) (Closing_d row) (rows @ [row])
      else rows)"
  by pat_completeness auto
termination
  by (relation "measure (\<lambda>(n, pmt, r, t, opening, rows). nat (n + 1 - t))") auto

declare schedule_loop_d.simps [simp del]

definition advance_row_d :: "double \<Rightarrow> double \<Rightarrow> schedule_row_d" where
  "advance_row_d pmt opening =
     (let principal = fl_min pmt opening;
          closing = fl_sub opening principal
      in \<lparr>Period_d = 0, Opening_d = opening, Interest_d = Double 0 0,
          Payment_d = pmt, Principal_d = principal, Closing_d = closing\<rparr>)"

definition initial_pv_d :: "double \<Rightarrow> double \<Rightarrow> int \<Rightarrow> bool \<Rightarrow> py_error + double" where
  "initial_pv_d pmt r n pay_in_advance =
     (if pay_in_advance then
        (case pv_ordinary_annuity_d pmt r (n - 1) of
           Inl e \<Rightarrow> Inl e
         | Inr v \<Rightarrow> Inr (fl_add pmt v))
      else pv_ordinary_annuity_d pmt r n)"

definition compute_lease_d ::
  "int \<Rightarrow> double \<Rightarrow> double \<Rightarrow> bool \<Rightarrow> double \<Rightarrow> double \<Rightarrow> double \<Rightarrow> int \<Rightarrow> py_error + lease_result_d" where
  "compute_lease_d lease_term annual_payment rate pay_in_advance idc prepaid incentives useful_life =
     (let r = rate; n = lease_term; pmt = annual_payment in
      case initial_pv_d pmt r n pay_in_advance of
        Inl e \<Rightarrow> Inl e
      | Inr pv \<Rightarrow>
          (let lease_liability_initial' = pv;
               rou_initial' = fl_sub (fl_add (fl_add lease_liability_initial' idc) prepaid) incentives;
               opening = lease_liability_initial';
               (rows, opening) =
                  (if pay_in_advance
                   then ([advance_row_d pmt opening], Closing_d (advance_row_d pmt opening))
                   else ([], opening));
               rows = schedule_loop_d n pmt r 1 opening rows;
               dep_years' = min lease_term useful_life
           in (case fl_truediv rou_initial' (fl_of_int dep_years') of
                 Inl e \<Rightarrow> Inl e
               | Inr annual_dep' \<Rightarrow>
                   Inr \<lparr>lease_liability_initial_d = lease_liability_initial',
                        rou_initial_d = rou_initial',
                        annual_dep_d = annual_dep',
                        dep_years_d = dep_years',
                        schedule_d = rows\<rparr>)))"

section \<open>The loop\<close>

lemma schedule_loop_prefix:
  "schedule_loop n pmt r t b (pre @ rows) = pre @ schedule_loop n pmt r t b rows"
proof (induction n pmt r t b rows arbitrary: pre rule: schedule_loop.induct)
  case (1 n pmt r t b rows)
  show ?case
  proof (cases "t \<le> n")
    case True
    then show ?thesis
      using "1.IH" [OF True refl, of pre]
      by (simp add: schedule_loop.simps [of n pmt r t] Let_def)
  next
    case False
    then show ?thesis by (simp add: schedule_loop.simps)
  qed
qed

lemma schedule_loop_step:
  "t \<le> n \<Longrightarrow> schedule_loop n pmt r t b [] =
     period_row n pmt r t b # schedule_loop n pmt r (t + 1) (Closing (period_row n pmt r t b)) []"
  using schedule_loop_prefix [of n pmt r "t + 1" _ "[period_row n pmt r t b]" "[]"]
  by (simp add: schedule_loop.simps [of n pmt r t] Let_def)

lemma schedule_loop_done: "n < t \<Longrightarrow> schedule_loop n pmt r t b rows = rows"
  by (simp add: schedule_loop.simps)

lemma schedule_loop_acc:
  "schedule_loop n pmt r t b rows = rows @ schedule_loop n pmt r t b []"
  using schedule_loop_prefix [of n pmt r t b rows "[]"] by simp

lemma periods_induct [case_names period]:
  assumes step: "\<And>t b. (t \<le> n \<Longrightarrow> P (t + 1) (Closing (period_row n pmt r t b))) \<Longrightarrow> P t b"
  shows "P t b"
proof -
  have "P t b" if "nat (n + 1 - t) = k" for k t b
    using that
  proof (induction k arbitrary: t b)
    case 0
    then have past: "\<not> t \<le> n" by simp
    show ?case by (rule step) (simp add: past)
  next
    case (Suc k t b)
    have "P (t + 1) (Closing (period_row n pmt r t b))" if "t \<le> n"
    proof -
      from that Suc.prems have "nat (n + 1 - (t + 1)) = k" by simp
      then show ?thesis by (rule Suc.IH)
    qed
    then show ?case by (rule step)
  qed
  then show ?thesis by simp
qed

lemma Period_schedule_loop: "map Period (schedule_loop n pmt r t b []) = [t..n]"
proof (induction t b rule: periods_induct [of n _ pmt r])
  case (period t b)
  show ?case
  proof (cases "t \<le> n")
    case True
    then show ?thesis using period 
      by (simp add: schedule_loop_step upto_rec1 [of t n] period_row_def Let_def split: prod.splits)
  next
    case False
    then show ?thesis by (simp add: schedule_loop_done)
  qed
qed

lemma length_schedule_loop: "length (schedule_loop n pmt r t b []) = nat (n + 1 - t)"
  using arg_cong [OF Period_schedule_loop [of n pmt r t b], of length] by simp


lemma pv_ordinary_annuity_annuity:
  "0 \<le> r \<Longrightarrow> pv_ordinary_annuity pmt r k = Inr (annuity pmt r k)"
  by (simp add: pv_ordinary_annuity_def annuity_def py_pow_def py_truediv_def)

lemma period_row_sel [simp]:
  "Period (period_row n pmt r t b) = t"
  "Opening (period_row n pmt r t b) = b"
  "Interest (period_row n pmt r t b) = b * r"
  "Payment (period_row n pmt r t b) = (if t = n then b * r + b else pmt)"
  "Principal (period_row n pmt r t b) = (if t = n then b else pmt - b * r)"
  "Closing (period_row n pmt r t b) = (if t = n then 0 else b - (pmt - b * r))"
  by (simp_all add: period_row_def Let_def)

lemma advance_row_sel [simp]:
  "Period (advance_row pmt b) = 0"
  "Opening (advance_row pmt b) = b"
  "Interest (advance_row pmt b) = 0"
  "Payment (advance_row pmt b) = pmt"
  "Principal (advance_row pmt b) = min pmt b"
  "Closing (advance_row pmt b) = b - min pmt b"
  by (simp_all add: advance_row_def Let_def)

lemma schedule_loop_Nil_iff: "schedule_loop n pmt r t b [] = [] \<longleftrightarrow> n < t"
  by (cases "t \<le> n") (simp_all add: schedule_loop_step [of t] schedule_loop_done)

lemma last_schedule_loop:
  "t \<le> n \<Longrightarrow> \<exists>b'. last (schedule_loop n pmt r t b []) = period_row n pmt r n b'"
proof (induction t b rule: periods_induct [of n _ pmt r])
  case (period t b)
  show ?case
  proof (cases "t + 1 \<le> n")
    case True
    then show ?thesis using period
      by (simp add: schedule_loop_step [of t] schedule_loop_Nil_iff)
  next
    case False
    with period.prems have "t = n" by simp
    then show ?thesis
      by (simp add: schedule_loop_step [of n] schedule_loop_done) blast
  qed
qed

lemma initial_pv_liability:
  "0 \<le> r \<Longrightarrow> initial_pv pmt r n adv = Inr (liability pmt r n adv)"
  by (simp add: initial_pv_def liability_def pv_ordinary_annuity_annuity)

lemma compute_lease_result:
  assumes "0 \<le> r" and "1 \<le> n" and "1 \<le> ul"
  obtains res where
    "compute_lease n pmt r adv idc pre inc ul = Inr res"
    "lease_liability_initial res = liability pmt r n adv"
    "rou_initial res = liability pmt r n adv + idc + pre - inc"
    "dep_years res = min n ul"
    "annual_dep res = (liability pmt r n adv + idc + pre - inc) / of_int (min n ul)"
    "adv \<Longrightarrow> schedule res =
       advance_row pmt (liability pmt r n adv) #
       schedule_loop n pmt r 1 (Closing (advance_row pmt (liability pmt r n adv))) []"
    "\<not> adv \<Longrightarrow> schedule res = schedule_loop n pmt r 1 (liability pmt r n adv) []"
proof -
  let ?L = "liability pmt r n adv"
  let ?rows = "if adv then advance_row pmt ?L # schedule_loop n pmt r 1 (Closing (advance_row pmt ?L)) []
               else schedule_loop n pmt r 1 ?L []"
  let ?res = "\<lparr>lease_liability_initial = ?L, rou_initial = ?L + idc + pre - inc,
               annual_dep = (?L + idc + pre - inc) / of_int (min n ul),
               dep_years = min n ul, schedule = ?rows\<rparr>"
  have "min n ul \<noteq> 0" using assms by simp
  then have "compute_lease n pmt r adv idc pre inc ul = Inr ?res"
    using schedule_loop_acc [of n pmt r 1 "Closing (advance_row pmt ?L)" "[advance_row pmt ?L]"]
    by (cases adv)
       (simp_all add: compute_lease_def initial_pv_liability [OF assms(1)] py_truediv_def Let_def)
  then show thesis by (rule that) simp_all
qed

section \<open>The annuity formula\<close>

lemma powi_neg_inverse:
  assumes "0 \<le> k"
  shows "(x::real) powi (- k) = inverse (x ^ nat k)"
proof -
  have "x powi k = x ^ nat k" using assms by (simp add: power_int_def)
  then show ?thesis by (simp only: power_int_minus)
qed

lemma powi_neg_le_one:
  assumes "0 \<le> (r::real)" and "0 \<le> k"
  shows "(1 + r) powi (- k) \<le> 1"
proof -
  have "1 \<le> (1 + r) ^ nat k" using assms(1) by (simp add: one_le_power)
  then have "inverse ((1 + r) ^ nat k) \<le> 1" by (simp add: inverse_le_1_iff)
  then show ?thesis by (simp only: powi_neg_inverse [OF assms(2)])
qed

lemma annuity_nonneg:
  assumes "0 \<le> pmt" and "0 \<le> r" and "0 \<le> k"
  shows "0 \<le> annuity pmt r k"
proof (cases "r = 0")
  case True
  then show ?thesis using assms by (simp add: annuity_def)
next
  case False
  then have "0 < r" using assms(2) by simp
  moreover have "0 \<le> 1 - (1 + r) powi (- k)"
    using powi_neg_le_one [OF assms(2,3)] by simp
  ultimately show ?thesis using assms(1) False by (simp add: annuity_def)
qed

section \<open>Two concrete runs\<close>

text \<open>
  The default inputs of the form (four periods, 25000 per period, 5 per cent,
  a useful life of four periods, no costs, prepayments or incentives), paid in
  arrears and paid in advance, evaluated step by step.
\<close>

lemma default_scenario_result:
  "compute_lease 4 25000 (5 / 100) False 0 0 0 4 =
     Inr \<lparr>lease_liability_initial = 17240500000 / 194481,
          rou_initial = 17240500000 / 194481,
          annual_dep = 4310125000 / 194481,
          dep_years = 4,
          schedule =
            [\<lparr>Period = 1, Opening = 17240500000 / 194481, Interest = 862025000 / 194481,
               Payment = 25000, Principal = 4000000000 / 194481, Closing = 630500000 / 9261\<rparr>,
             \<lparr>Period = 2, Opening = 630500000 / 9261, Interest = 31525000 / 9261,
               Payment = 25000, Principal = 200000000 / 9261, Closing = 20500000 / 441\<rparr>,
             \<lparr>Period = 3, Opening = 20500000 / 441, Interest = 1025000 / 441,
               Payment = 25000, Principal = 10000000 / 441, Closing = 500000 / 21\<rparr>,
             \<lparr>Period = 4, Opening = 500000 / 21, Interest = 25000 / 21,
               Payment = 25000, Principal = 500000 / 21, Closing = 0\<rparr>]\<rparr>"
  by (simp add: compute_lease_def initial_pv_def pv_ordinary_annuity_def py_pow_def py_truediv_def
      schedule_loop.simps period_row_def Let_def power_int_minus power_divide)

lemma advance_scenario_result:
  "compute_lease 4 25000 (5 / 100) True 0 0 0 4 =
     Inr \<lparr>lease_liability_initial = 862025000 / 9261,
          rou_initial = 862025000 / 9261,
          annual_dep = 215506250 / 9261,
          dep_years = 4,
          schedule =
            [\<lparr>Period = 0, Opening = 862025000 / 9261, Interest = 0,
               Payment = 25000, Principal = 25000, Closing = 630500000 / 9261\<rparr>,
             \<lparr>Period = 1, Opening = 630500000 / 9261, Interest = 31525000 / 9261,
               Payment = 25000, Principal = 200000000 / 9261, Closing = 20500000 / 441\<rparr>,
             \<lparr>Period = 2, Opening = 20500000 / 441, Interest = 1025000 / 441,
               Payment = 25000, Principal = 10000000 / 441, Closing = 500000 / 21\<rparr>,
             \<lparr>Period = 3, Opening = 500000 / 21, Interest = 25000 / 21,
               Payment = 25000, Principal = 500000 / 21, Closing = 0\<rparr>,
             \<lparr>Period = 4, Opening = 0, Interest = 0,
               Payment = 0, Principal = 0, Closing = 0\<rparr>]\<rparr>"
  by (simp add: compute_lease_def initial_pv_def pv_ordinary_annuity_def py_pow_def py_truediv_def
      schedule_loop.simps period_row_def advance_row_def Let_def power_int_minus power_divide)

section \<open>Properties of the program in binary64 arithmetic\<close>

subsection \<open>The loop\<close>

lemma schedule_loop_d_prefix:
  "schedule_loop_d n pmt r t b (pre @ rows) = pre @ schedule_loop_d n pmt r t b rows"
proof (induction n pmt r t b rows arbitrary: pre rule: schedule_loop_d.induct)
  case (1 n pmt r t b rows)
  show ?case
  proof (cases "t \<le> n")
    case True
    then show ?thesis
      using "1.IH" [OF True refl, of pre]
      by (simp add: schedule_loop_d.simps [of n pmt r t] Let_def)
  next
    case False
    then show ?thesis by (simp add: schedule_loop_d.simps)
  qed
qed

lemma schedule_loop_d_step:
  "t \<le> n \<Longrightarrow> schedule_loop_d n pmt r t b [] =
     period_row_d n pmt r t b # schedule_loop_d n pmt r (t + 1) (Closing_d (period_row_d n pmt r t b)) []"
  using schedule_loop_d_prefix [of n pmt r "t + 1" _ "[period_row_d n pmt r t b]" "[]"]
  by (simp add: schedule_loop_d.simps [of n pmt r t] Let_def)

lemma schedule_loop_d_done: "n < t \<Longrightarrow> schedule_loop_d n pmt r t b rows = rows"
  by (simp add: schedule_loop_d.simps)

lemma schedule_loop_d_acc:
  "schedule_loop_d n pmt r t b rows = rows @ schedule_loop_d n pmt r t b []"
  using schedule_loop_d_prefix [of n pmt r t b rows "[]"] by simp

lemma periods_induct_d [case_names period]:
  assumes step: "\<And>t b. (t \<le> n \<Longrightarrow> P (t + 1) (Closing_d (period_row_d n pmt r t b))) \<Longrightarrow> P t b"
  shows "P t b"
proof -
  have "P t b" if "nat (n + 1 - t) = k" for k t b
    using that
  proof (induction k arbitrary: t b)
    case 0
    then have past: "\<not> t \<le> n" by simp
    show ?case by (rule step) (simp add: past)
  next
    case (Suc k t b)
    have "P (t + 1) (Closing_d (period_row_d n pmt r t b))" if "t \<le> n"
    proof -
      from that Suc.prems have "nat (n + 1 - (t + 1)) = k" by simp
      then show ?thesis by (rule Suc.IH)
    qed
    then show ?case by (rule step)
  qed
  then show ?thesis by simp
qed

lemma period_row_d_sel [simp]:
  "Period_d (period_row_d n pmt r t b) = t"
  "Opening_d (period_row_d n pmt r t b) = b"
  "Interest_d (period_row_d n pmt r t b) = fl_mul b r"
  "Payment_d (period_row_d n pmt r t b) = (if t = n then fl_add (fl_mul b r) b else pmt)"
  "Principal_d (period_row_d n pmt r t b) = (if t = n then b else fl_sub pmt (fl_mul b r))"
  "Closing_d (period_row_d n pmt r t b) =
     fl_sub b (if t = n then b else fl_sub pmt (fl_mul b r))"
  by (simp_all add: period_row_d_def Let_def)

lemma advance_row_d_sel [simp]:
  "Period_d (advance_row_d pmt b) = 0"
  "Opening_d (advance_row_d pmt b) = b"
  "Interest_d (advance_row_d pmt b) = Double 0 0"
  "Payment_d (advance_row_d pmt b) = pmt"
  "Principal_d (advance_row_d pmt b) = fl_min pmt b"
  "Closing_d (advance_row_d pmt b) = fl_sub b (fl_min pmt b)"
  by (simp_all add: advance_row_d_def Let_def)

lemma schedule_loop_d_Nil_iff: "schedule_loop_d n pmt r t b [] = [] \<longleftrightarrow> n < t"
  by (cases "t \<le> n") (simp_all add: schedule_loop_d_step [of t] schedule_loop_d_done)

lemma hd_schedule_loop_d:
  "t \<le> n \<Longrightarrow> hd (schedule_loop_d n pmt r t b []) = period_row_d n pmt r t b"
  by (simp add: schedule_loop_d_step [of t])

lemma rows_of_schedule_loop_d:
  "\<forall>row \<in> set (schedule_loop_d n pmt r t b []).
      \<exists>b'. row = period_row_d n pmt r (Period_d row) b' \<and> t \<le> Period_d row \<and> Period_d row \<le> n"
proof (induction t b rule: periods_induct_d [of n _ pmt r])
  case (period t b)
  show ?case
  proof (cases "t \<le> n")
    case True
    have "\<exists>b'. period_row_d n pmt r t b = period_row_d n pmt r t b'" by blast
    moreover have "\<forall>row \<in> set (schedule_loop_d n pmt r (t + 1) (Closing_d (period_row_d n pmt r t b)) []).
      \<exists>b'. row = period_row_d n pmt r (Period_d row) b' \<and> t \<le> Period_d row \<and> Period_d row \<le> n"
      using period [OF True] by fastforce
    ultimately show ?thesis using True
      by (simp add: schedule_loop_d_step [of t])
  next
    case False
    then show ?thesis by (simp add: schedule_loop_d_done)
  qed
qed

lemma linked_schedule_loop_d:
  "successively (\<lambda>a b. Opening_d b = Closing_d a) (schedule_loop_d n pmt r t b [])"
proof (induction t b rule: periods_induct_d [of n _ pmt r])
  case (period t b)
  show ?case
  proof (cases "t \<le> n")
    case True
    then show ?thesis using period
      by (cases "t + 1 \<le> n")
         (simp_all add: schedule_loop_d_step [of t] successively_Cons hd_schedule_loop_d
            schedule_loop_d_Nil_iff del: period_row_d_sel(6))
  next
    case False
    then show ?thesis by (simp add: schedule_loop_d_done)
  qed
qed

subsection \<open>No error on the domain\<close>

lemma bit_length_pos: "0 < n \<Longrightarrow> bit_length n = 1 + bit_length (n div 2)"
  by (subst bit_length.simps) simp

lemma bit_length_nonpos: "n \<le> 0 \<Longrightarrow> bit_length n = 0"
  by (subst bit_length.simps) simp

lemma bit_length_nonneg: "0 \<le> bit_length n"
proof (induction n rule: bit_length.induct)
  case (1 n)
  then show ?case
    by (cases "n \<le> 0") (simp_all add: bit_length_nonpos bit_length_pos)
qed

lemma bit_length_lower: "0 < n \<Longrightarrow> 2 ^ nat (bit_length n - 1) \<le> n"
proof (induction n rule: bit_length.induct)
  case (1 n)
  show ?case
  proof (cases "n div 2 \<le> 0")
    case True
    then have "bit_length n = 1"
      using "1.prems" by (simp add: bit_length_pos bit_length_nonpos)
    then show ?thesis using "1.prems" by simp
  next
    case False
    then have half: "0 < n div 2" by simp
    have ih: "2 ^ nat (bit_length (n div 2) - 1) \<le> n div 2"
      using "1.IH" "1.prems" half by simp
    have "1 \<le> bit_length (n div 2)"
      using half bit_length_nonneg [of "(n div 2) div 2"] by (simp add: bit_length_pos)
    then have "nat (bit_length n - 1) = Suc (nat (bit_length (n div 2) - 1))"
      using "1.prems" by (simp add: bit_length_pos [of n])
    then have "(2::int) ^ nat (bit_length n - 1) = 2 * 2 ^ nat (bit_length (n div 2) - 1)"
      by simp
    also have "\<dots> \<le> 2 * (n div 2)" using ih by simp
    also have "\<dots> \<le> n" by simp
    finally show ?thesis .
  qed
qed

lemma bit_length_ge:
  assumes "2 ^ j \<le> n"
  shows "int j + 1 \<le> bit_length n"
  using assms
proof (induction j arbitrary: n)
  case 0
  then have "0 < n" by simp
  then show ?case using bit_length_nonneg [of "n div 2"] by (simp add: bit_length_pos)
next
  case (Suc j)
  then have "2 ^ j \<le> n div 2" by simp
  then have "int j + 1 \<le> bit_length (n div 2)" by (rule Suc.IH)
  moreover have "0 < n" using Suc.prems zero_less_power [of "2::int" "Suc j"] by linarith
  ultimately show ?case by (simp add: bit_length_pos)
qed

lemma rnd_pos:
  assumes "0 < m" and "1 \<le> bit_length m + e"
  shows "0 < mant (rnd m e)"
proof -
  let ?k = "bit_length m - 53"
  have k: "max (bit_length \<bar>m\<bar> + e - 53) (- 1074) - e = ?k"
    using assms by simp
  show ?thesis
  proof (cases "?k \<le> 0")
    case True
    then show ?thesis using assms(1) k by (simp add: rnd_def Let_def)
  next
    case False
    have "(2::int) ^ nat ?k \<le> 2 ^ nat (bit_length m - 1)"
      by (rule power_increasing) simp_all
    also have "\<dots> \<le> m" using assms(1) by (rule bit_length_lower)
    finally have "0 < m div 2 ^ nat ?k"
      by (simp add: pos_imp_zdiv_pos_iff)
    then show ?thesis using False assms(1) k
      by (simp add: rnd_def Let_def)
  qed
qed

lemma fl_of_int_pos: "1 \<le> k \<Longrightarrow> 0 < mant (fl_of_int k)"
  unfolding fl_of_int_def
  using bit_length_ge [of 0 k] by (intro rnd_pos) simp_all

lemma fl_of_int_one: "fl_of_int 1 = Double 1 0"
  by (simp add: fl_of_int_def rnd_def bit_length_pos bit_length_nonpos)

lemma one_plus_rate_pos:
  assumes "0 \<le> mant r"
  shows "0 < mant (fl_add (fl_of_int 1) r)"
proof -
  let ?e = "min 0 (expo r)"
  let ?m = "2 ^ nat (- ?e) + mant r * 2 ^ nat (expo r - ?e)"
  have ge: "(2::int) ^ nat (- ?e) \<le> ?m" using assms by simp
  then have pos: "0 < ?m" using zero_less_power [of "2::int" "nat (- ?e)"] by linarith
  have "int (nat (- ?e)) + 1 \<le> bit_length ?m" using ge by (rule bit_length_ge)
  then have "1 \<le> bit_length ?m + ?e" by simp
  with pos have "0 < mant (rnd ?m ?e)" by (rule rnd_pos)
  then show ?thesis by (simp add: fl_add_def fl_of_int_one Let_def)
qed

lemma fl_truediv_Inr: "mant y \<noteq> 0 \<Longrightarrow> \<exists>v. fl_truediv x y = Inr v"
  by (simp add: fl_truediv_def Let_def)

lemma pv_ordinary_annuity_d_Inr:
  assumes "0 \<le> mant r"
  shows "\<exists>v. pv_ordinary_annuity_d pmt r k = Inr v"
proof (cases "mant r = 0")
  case True
  then show ?thesis by (simp add: pv_ordinary_annuity_d_def)
next
  case False
  let ?b = "fl_add (fl_of_int 1) r"
  have base: "mant ?b \<noteq> 0" using one_plus_rate_pos [OF assms] by simp
  then have "\<exists>p. fl_pow ?b (- k) = Inr p"
    by (simp add: fl_pow_def fl_truediv_Inr)
  then obtain p where "fl_pow ?b (- k) = Inr p" by blast
  then show ?thesis using False
    by (simp add: pv_ordinary_annuity_d_def fl_truediv_Inr)
qed

lemma compute_lease_d_result:
  assumes "0 \<le> mant r" and "1 \<le> n" and "1 \<le> ul"
  obtains res L where
    "compute_lease_d n pmt r adv idc pre inc ul = Inr res"
    "adv \<Longrightarrow> schedule_d res =
       advance_row_d pmt L # schedule_loop_d n pmt r 1 (Closing_d (advance_row_d pmt L)) []"
    "\<not> adv \<Longrightarrow> schedule_d res = schedule_loop_d n pmt r 1 L []"
proof -
  obtain v w where "pv_ordinary_annuity_d pmt r n = Inr v"
    and "pv_ordinary_annuity_d pmt r (n - 1) = Inr w"
    using pv_ordinary_annuity_d_Inr [OF assms(1)] by blast
  then have "\<exists>L. initial_pv_d pmt r n adv = Inr L"
    by (simp add: initial_pv_d_def)
  then obtain L where L: "initial_pv_d pmt r n adv = Inr L" by blast
  let ?rou = "fl_sub (fl_add (fl_add L idc) pre) inc"
  have "mant (fl_of_int (min n ul)) \<noteq> 0"
    using fl_of_int_pos [of "min n ul"] assms(2,3) by simp
  then obtain dep where dep: "fl_truediv ?rou (fl_of_int (min n ul)) = Inr dep"
    using fl_truediv_Inr by blast
  let ?rows = "if adv then advance_row_d pmt L # schedule_loop_d n pmt r 1 (Closing_d (advance_row_d pmt L)) []
               else schedule_loop_d n pmt r 1 L []"
  let ?res = "\<lparr>lease_liability_initial_d = L, rou_initial_d = ?rou, annual_dep_d = dep,
               dep_years_d = min n ul, schedule_d = ?rows\<rparr>"
  have "compute_lease_d n pmt r adv idc pre inc ul = Inr ?res"
    using L dep
      schedule_loop_d_acc [of n pmt r 1 "Closing_d (advance_row_d pmt L)" "[advance_row_d pmt L]"]
    by (cases adv) (simp_all add: compute_lease_d_def Let_def del: advance_row_d_sel(6))
  then show thesis by (rule that) simp_all
qed

subsection \<open>The error of one rounding\<close>

lemma dval_Double [simp]: "dval (Double m e) = of_int m * 2 powi e"
  by (simp add: dval_def)

lemma half_even_near:
  fixes a K :: int
  assumes "0 < K" and "0 \<le> a"
  defines "q \<equiv> a div K" and "r \<equiv> a mod K"
  defines "q' \<equiv> (if K < 2 * r \<or> (2 * r = K \<and> odd q) then q + 1 else q)"
  shows "2 * \<bar>q' * K - a\<bar> \<le> K"
proof -
  have split: "a = q * K + r" and r: "0 \<le> r" "r < K"
    using assms(1) by (simp_all add: q_def r_def)
  show ?thesis
  proof (cases "K < 2 * r \<or> (2 * r = K \<and> odd q)")
    case True
    then have "q' * K - a = K - r" using split by (simp add: q'_def algebra_simps)
    then show ?thesis using True r by auto
  next
    case False
    then have "q' = q" and small: "\<not> K < 2 * r" unfolding q'_def by auto
    then have "q' * K - a = - r" using split by simp
    then show ?thesis using small r by simp
  qed
qed

lemma rnd_error_max:
  "\<bar>dval (rnd m e) - of_int m * 2 powi e\<bar> \<le> max (\<bar>of_int m * 2 powi e\<bar> / 2 ^ 53) (1 / 2 ^ 1075)"
proof -
  define b where "b = bit_length \<bar>m\<bar>"
  define k where "k = max (b + e - 53) (- 1074) - e"
  show ?thesis
  proof (cases "k \<le> 0")
    case True
    then have "rnd m e = Double m e" by (simp add: rnd_def Let_def k_def b_def)
    then show ?thesis by (simp add: max_def)
  next
    case False
    define K :: int where "K = 2 ^ nat k"
    define a where "a = \<bar>m\<bar>"
    define q where "q = a div K"
    define r where "r = a mod K"
    define q' where "q' = (if K < 2 * r \<or> (2 * r = K \<and> odd q) then q + 1 else q)"
    have rnd_eq: "rnd m e = Double (sgn m * q') (e + k)"
      unfolding rnd_def Let_def b_def [symmetric] k_def [symmetric]
      using False by (simp add: K_def a_def q_def r_def q'_def)
    have Kpos: "0 < K" by (simp add: K_def)
    have near: "2 * \<bar>q' * K - a\<bar> \<le> K"
      unfolding q'_def q_def r_def using Kpos by (intro half_even_near) (simp_all add: a_def)
    have "(2::real) powi k = of_int K" using False by (simp add: K_def power_int_def)
    then have scale: "(2::real) powi (e + k) = 2 powi e * of_int K"
      by (simp add: power_int_add)
    have m_eq: "m = sgn m * a" by (simp add: a_def sgn_if)
    have "dval (rnd m e) - of_int m * 2 powi e =
          of_int (sgn m * q') * (2 powi e * of_int K) - of_int (sgn m * a) * 2 powi e"
      using m_eq by (simp add: rnd_eq scale)
    also have "\<dots> = of_int (sgn m) * (of_int (q' * K - a) * 2 powi e)"
      by (simp add: algebra_simps)
    finally have "\<bar>dval (rnd m e) - of_int m * 2 powi e\<bar> =
        \<bar>of_int (sgn m) :: real\<bar> * (\<bar>of_int (q' * K - a)\<bar> * 2 powi e)"
      by (simp add: abs_mult)
    also have "\<dots> \<le> 1 * (\<bar>of_int (q' * K - a)\<bar> * 2 powi e)"
      by (intro mult_right_mono) (simp_all add: sgn_if)
    also have "\<dots> = of_int \<bar>q' * K - a\<bar> * 2 powi e" by simp
    also have "\<dots> \<le> (of_int K / 2) * 2 powi e"
    proof (intro mult_right_mono)
      have "(of_int (2 * \<bar>q' * K - a\<bar>) :: real) \<le> of_int K"
        using near by (simp only: of_int_le_iff)
      then show "(of_int \<bar>q' * K - a\<bar> :: real) \<le> of_int K / 2" by simp
    qed simp
    finally have bound: "\<bar>dval (rnd m e) - of_int m * 2 powi e\<bar> \<le> (of_int K / 2) * 2 powi e" .
    show ?thesis
    proof (cases "- 1074 \<le> b + e - 53")
      case True
      then have k_eq: "k = b - 53" by (simp add: k_def)
      have "m \<noteq> 0"
      proof
        assume "m = 0"
        then have "b = 0" by (simp add: b_def bit_length_nonpos)
        with k_eq False show False by simp
      qed
      then have "0 < a" by (simp add: a_def)
      then have "2 ^ nat (b - 1) \<le> a"
        unfolding b_def a_def by (rule bit_length_lower)
      moreover have "nat (b - 1) = nat k + 52" using False k_eq by simp
      ultimately have "K * 2 ^ 52 \<le> a" by (simp add: K_def power_add)
      then have "(of_int (K * 2 ^ 52) :: real) \<le> of_int a" by (simp only: of_int_le_iff)
      then have "(of_int K / 2 :: real) \<le> of_int a / 2 ^ 53" by simp
      then have "(of_int K / 2) * (2::real) powi e \<le> (of_int a / 2 ^ 53) * 2 powi e"
        by (rule mult_right_mono) simp
      also have "\<dots> = \<bar>of_int m * 2 powi e\<bar> / 2 ^ 53"
        by (simp add: a_def abs_mult)
      finally have "\<bar>dval (rnd m e) - of_int m * 2 powi e\<bar> \<le> \<bar>of_int m * 2 powi e\<bar> / 2 ^ 53"
        using bound by (rule order_trans [rotated])
      then show ?thesis by (rule max.coboundedI1)
    next
      case False
      then have "k + e = - 1074" by (simp add: k_def)
      then have "(2::real) powi e * of_int K = 2 powi (- 1074)"
        using scale by (simp add: add.commute)
      also have "\<dots> = 1 / 2 ^ 1074"
        by (simp add: power_int_minus inverse_eq_divide)
      finally have "(of_int K / 2) * (2::real) powi e = (1 / 2 ^ 1074) / 2"
        by (simp add: mult.commute)
      also have "\<dots> = (1::real) / 2 ^ 1075" by simp
      finally have "\<bar>dval (rnd m e) - of_int m * 2 powi e\<bar> \<le> 1 / 2 ^ 1075"
        using bound by (simp only:)
      then show ?thesis by (rule max.coboundedI2)
    qed
  qed
qed

lemma rnd_error:
  "\<bar>dval (rnd m e) - of_int m * 2 powi e\<bar> \<le> rounding_bound (of_int m * 2 powi e)"
  unfolding rounding_bound_def by (rule rnd_error_max)

lemma dval_fl_sub_error:
  "\<bar>dval (fl_sub x y) - (dval x - dval y)\<bar> \<le> rounding_bound (dval x - dval y)"
proof -
  define e where "e = min (expo x) (expo y)"
  define M where "M = mant x * 2 ^ nat (expo x - e) - mant y * 2 ^ nat (expo y - e)"
  have shift: "(2::real) ^ nat (d - e) * 2 powi e = 2 powi d" if "e \<le> d" for d
  proof -
    have "(2::real) ^ nat (d - e) = 2 powi (d - e)" using that by (simp add: power_int_def)
    then show ?thesis by (simp add: power_int_add [symmetric])
  qed
  have "of_int M * 2 powi e =
        of_int (mant x) * ((2::real) ^ nat (expo x - e) * 2 powi e) -
        of_int (mant y) * ((2::real) ^ nat (expo y - e) * 2 powi e)"
    by (simp add: M_def algebra_simps)
  also have "\<dots> = dval x - dval y"
    using shift [of "expo x"] shift [of "expo y"] by (simp add: e_def dval_def)
  finally have exact: "of_int M * 2 powi e = dval x - dval y" .
  have "fl_sub x y = rnd M e" by (simp add: fl_sub_def Let_def e_def M_def)
  then show ?thesis using rnd_error [of M e] by (simp add: exact)
qed

subsection \<open>A concrete run\<close>

text \<open>
  Two periods in arrears, a payment of 24999.99 and a rate of 10 per cent: the
  doubles nearest to \<open>2499999 / 100\<close> and to \<open>10 / 100\<close>.  Each operation of the
  run is evaluated on its own, then the run is put together.
\<close>

lemma rounding_scenario_inputs:
  "fl_truediv (Double 2499999 0) (Double 100 0) = Inr (Double 6871944924820931 (- 38))"
  "fl_truediv (Double 10 0) (Double 100 0) = Inr (Double 7205759403792794 (- 56))"
  "fl_add (Double 4770606394090566 (- 40)) (Double 5679293326298290 (- 38)) =
     Double 6871944924820932 (- 38)"
  by code_simp+

lemma rounding_scenario_steps:
    "fl_of_int 1 = Double 1 0"
    "fl_add (Double 1 0) (Double 7205759403792794 (- 56)) = Double 4953959590107546 (- 52)"
    "fl_pow (Double 4953959590107546 (- 52)) (- 2) = Inr (Double 7443966326232224 (- 53))"
    "fl_sub (Double 1 0) (Double 7443966326232224 (- 53)) = Double 1563232928508768 (- 53)"
    "fl_mul (Double 6871944924820931 (- 38)) (Double 1563232928508768 (- 53)) = Double 4770606394090566 (- 40)"
    "fl_truediv (Double 4770606394090566 (- 40)) (Double 7205759403792794 (- 56)) = Inr (Double 5963257992613207 (- 37))"
    "fl_add (Double 5963257992613207 (- 37)) (Double 0 0) = Double 5963257992613207 (- 37)"
    "fl_sub (Double 5963257992613207 (- 37)) (Double 0 0) = Double 5963257992613207 (- 37)"
    "fl_mul (Double 5963257992613207 (- 37)) (Double 7205759403792794 (- 56)) = Double 4770606394090566 (- 40)"
    "fl_sub (Double 6871944924820931 (- 38)) (Double 4770606394090566 (- 40)) = Double 5679293326298290 (- 38)"
    "fl_sub (Double 5963257992613207 (- 37)) (Double 5679293326298290 (- 38)) = Double 6247222658928124 (- 38)"
    "fl_mul (Double 6247222658928124 (- 38)) (Double 7205759403792794 (- 56)) = Double 4997778127142499 (- 41)"
    "fl_sub (Double 6871944924820931 (- 38)) (Double 4997778127142499 (- 41)) = Double 6247222658928119 (- 38)"
    "fl_add (Double 4997778127142499 (- 41)) (Double 6247222658928124 (- 38)) = Double 6871944924820936 (- 38)"
    "fl_sub (Double 6247222658928124 (- 38)) (Double 6247222658928124 (- 38)) = Double 0 (- 38)"
    "fl_of_int 2 = Double 2 0"
    "fl_truediv (Double 5963257992613207 (- 37)) (Double 2 0) = Inr (Double 5963257992613207 (- 38))"
  by code_simp+

lemma rounding_scenario_result:
  "compute_lease_d 2 (Double 6871944924820931 (- 38)) (Double 7205759403792794 (- 56)) False
      (Double 0 0) (Double 0 0) (Double 0 0) 4 =
   Inr \<lparr>lease_liability_initial_d = Double 5963257992613207 (- 37),
        rou_initial_d = Double 5963257992613207 (- 37),
        annual_dep_d = Double 5963257992613207 (- 38),
        dep_years_d = 2,
        schedule_d =
          [\<lparr>Period_d = 1, Opening_d = Double 5963257992613207 (- 37),
             Interest_d = Double 4770606394090566 (- 40),
             Payment_d = Double 6871944924820931 (- 38),
             Principal_d = Double 5679293326298290 (- 38),
             Closing_d = Double 6247222658928124 (- 38)\<rparr>,
           \<lparr>Period_d = 2, Opening_d = Double 6247222658928124 (- 38),
             Interest_d = Double 4997778127142499 (- 41),
             Payment_d = Double 6871944924820936 (- 38),
             Principal_d = Double 6247222658928124 (- 38),
             Closing_d = Double 0 (- 38)\<rparr>]\<rparr>"
  by (simp add: compute_lease_d_def initial_pv_d_def pv_ordinary_annuity_d_def
      schedule_loop_d.simps period_row_d_def Let_def rounding_scenario_steps)

section \<open>The claims\<close>

text \<open>
  The results below are stated on the documented input domain: a lease term and
  a useful life of at least one period, and a non-negative payment and rate.
  Each one also shows that the program returns a result there.
\<close>

text \<open>
  Claim C3.  For a non-negative payment, rate and number of periods,
  \<^verbatim>\<open>pv_ordinary_annuity\<close> returns payment times periods when the rate is zero,
  and payment times \<open>(1 - (1 + rate) ^ (- periods)) / rate\<close> when the rate is
  positive.
\<close>

theorem pv_ordinary_annuity_formula:
  assumes "0 \<le> pmt" and "0 \<le> r" and "0 \<le> n"
  shows "(r = 0 \<longrightarrow> pv_ordinary_annuity pmt r n = Inr (pmt * of_int n)) \<and>
         (0 < r \<longrightarrow> pv_ordinary_annuity pmt r n = Inr (pmt * (1 - (1 + r) powi (- n)) / r))"
  using assms(2) by (simp add: pv_ordinary_annuity_def py_pow_def py_truediv_def)

theorem pv_ordinary_annuity_formula_witness:
  "(0::real) \<le> 25000 \<and> (0::real) \<le> 5 / 100 \<and> (0::int) \<le> 4 \<and>
   pv_ordinary_annuity 25000 0 4 = Inr 100000 \<and>
   pv_ordinary_annuity 25000 (5 / 100) 4 = Inr (17240500000 / 194481)"
  using pv_ordinary_annuity_formula [of 25000 0 4]
        pv_ordinary_annuity_formula [of 25000 "5 / 100" 4]
  by (simp add: power_int_minus power_divide)

text \<open>
  Claim C2.  The initial liability is the present value of \<open>term\<close> payments for
  a lease paid in arrears, and the payment plus the present value of
  \<open>term - 1\<close> payments for a lease paid in advance.
\<close>

theorem initial_liability_by_timing:
  assumes "1 \<le> lease_term" and "0 \<le> annual_payment" and "0 \<le> rate" and "1 \<le> useful_life"
  shows "\<exists>res v.
     compute_lease lease_term annual_payment rate pay_in_advance idc prepaid incentives useful_life = Inr res \<and>
     pv_ordinary_annuity annual_payment rate (if pay_in_advance then lease_term - 1 else lease_term) = Inr v \<and>
     lease_liability_initial res = (if pay_in_advance then annual_payment + v else v)"
proof -
  from compute_lease_result [OF assms(3,1,4)] obtain res where
    "compute_lease lease_term annual_payment rate pay_in_advance idc prepaid incentives useful_life = Inr res"
    "lease_liability_initial res = liability annual_payment rate lease_term pay_in_advance"
    by blast
  then show ?thesis
    by (simp add: pv_ordinary_annuity_annuity [OF assms(3)] liability_def)
qed

theorem initial_liability_by_timing_witness:
  "(1::int) \<le> 4 \<and> (0::real) \<le> 25000 \<and> (0::real) \<le> 5 / 100 \<and>
   (\<exists>res. compute_lease 4 25000 (5 / 100) True 0 0 0 4 = Inr res \<and>
      lease_liability_initial res = 862025000 / 9261) \<and>
   (\<exists>res. compute_lease 4 25000 (5 / 100) False 0 0 0 4 = Inr res \<and>
      lease_liability_initial res = 17240500000 / 194481)"
proof -
  have "pv_ordinary_annuity 25000 (5 / 100) 3 = Inr (630500000 / 9261)"
    and "pv_ordinary_annuity 25000 (5 / 100) 4 = Inr (17240500000 / 194481)"
    by (simp_all add: pv_ordinary_annuity_def py_pow_def py_truediv_def power_int_minus power_divide)
  then show ?thesis
    using initial_liability_by_timing [of 4 25000 "5 / 100" 4 True 0 0 0]
          initial_liability_by_timing [of 4 25000 "5 / 100" 4 False 0 0 0]
    by auto
qed

text \<open>
  Claim C5.  The initial right-of-use asset is the initial liability plus the
  initial direct costs plus the prepaid payments minus the lease incentives;
  the number of depreciation periods is the smaller of the term and the useful
  life; the annual depreciation is the asset divided by that number, so that
  the annual depreciation times the number of periods gives the asset back.
\<close>

theorem rou_asset_and_depreciation:
  assumes "1 \<le> lease_term" and "0 \<le> rate" and "1 \<le> useful_life"
  shows "\<exists>res.
     compute_lease lease_term annual_payment rate pay_in_advance idc prepaid incentives useful_life = Inr res \<and>
     rou_initial res = lease_liability_initial res + idc + prepaid - incentives \<and>
     dep_years res = min lease_term useful_life \<and>
     annual_dep res = rou_initial res / of_int (dep_years res) \<and>
     annual_dep res * of_int (dep_years res) = rou_initial res"
proof -
  from compute_lease_result [OF assms(2,1,3)] obtain res where
    "compute_lease lease_term annual_payment rate pay_in_advance idc prepaid incentives useful_life = Inr res"
    "lease_liability_initial res = liability annual_payment rate lease_term pay_in_advance"
    "rou_initial res = liability annual_payment rate lease_term pay_in_advance + idc + prepaid - incentives"
    "dep_years res = min lease_term useful_life"
    "annual_dep res = (liability annual_payment rate lease_term pay_in_advance + idc + prepaid - incentives)
        / of_int (min lease_term useful_life)"
    by blast
  moreover have "min lease_term useful_life \<noteq> 0" using assms by simp
  ultimately show ?thesis by simp
qed

theorem rou_asset_and_depreciation_witness:
  "(1::int) \<le> 5 \<and> (0::real) \<le> 0 \<and> (1::int) \<le> 3 \<and>
   (\<exists>res. compute_lease 5 1200 0 False 100 50 30 3 = Inr res \<and>
      lease_liability_initial res = 6000 \<and> rou_initial res = 6120 \<and>
      dep_years res = 3 \<and> annual_dep res = 2040)"
proof -
  have "pv_ordinary_annuity 1200 0 5 = Inr 6000"
    by (simp add: pv_ordinary_annuity_def)
  then have "lease_liability_initial res = 6000"
    if "compute_lease 5 1200 0 False 100 50 30 3 = Inr res" for res
    using that by (auto simp add: compute_lease_def initial_pv_def Let_def py_truediv_def)
  then show ?thesis
    using rou_asset_and_depreciation [of 5 0 3 1200 False 100 50 30] by auto
qed

text \<open>
  Claim C7.  The schedule has \<open>term\<close> rows for a lease paid in arrears and
  \<open>term + 1\<close> rows for a lease paid in advance, and its period numbers are
  consecutive, starting at 1 in arrears and at 0 in advance.
\<close>

theorem schedule_length_and_periods:
  assumes "1 \<le> lease_term" and "0 \<le> rate" and "1 \<le> useful_life"
  shows "\<exists>res.
     compute_lease lease_term annual_payment rate pay_in_advance idc prepaid incentives useful_life = Inr res \<and>
     length (schedule res) = (if pay_in_advance then nat lease_term + 1 else nat lease_term) \<and>
     map Period (schedule res) = (if pay_in_advance then [0..lease_term] else [1..lease_term])"
proof -
  from compute_lease_result [OF assms(2,1,3)] obtain res where res:
    "compute_lease lease_term annual_payment rate pay_in_advance idc prepaid incentives useful_life = Inr res"
    "pay_in_advance \<Longrightarrow> schedule res =
       advance_row annual_payment (liability annual_payment rate lease_term pay_in_advance) #
       schedule_loop lease_term annual_payment rate 1
         (Closing (advance_row annual_payment (liability annual_payment rate lease_term pay_in_advance))) []"
    "\<not> pay_in_advance \<Longrightarrow> schedule res =
       schedule_loop lease_term annual_payment rate 1 (liability annual_payment rate lease_term pay_in_advance) []"
    by blast
  have "[0..lease_term] = 0 # [1..lease_term]"
    using assms(1) upto_rec1 [of 0 lease_term] by simp
  then show ?thesis using res assms(1)
    by (cases pay_in_advance) (simp_all add: Period_schedule_loop length_schedule_loop)
qed

theorem schedule_length_and_periods_witness:
  "(1::int) \<le> 4 \<and> (0::real) \<le> 5 / 100 \<and>
   (\<exists>res. compute_lease 4 25000 (5 / 100) True 0 0 0 4 = Inr res \<and>
      length (schedule res) = 5 \<and> map Period (schedule res) = [0, 1, 2, 3, 4]) \<and>
   (\<exists>res. compute_lease 4 25000 (5 / 100) False 0 0 0 4 = Inr res \<and>
      length (schedule res) = 4 \<and> map Period (schedule res) = [1, 2, 3, 4])"
proof -
  have "[0..4] = [0, 1, 2, 3, 4::int]" and "[1..4] = [1, 2, 3, 4::int]"
    by (simp_all add: upto_rec1)
  then show ?thesis
    using schedule_length_and_periods [of 4 "5 / 100" 4 25000 True 0 0 0]
          schedule_length_and_periods [of 4 "5 / 100" 4 25000 False 0 0 0]
    by simp
qed

text \<open>
  Claim C9.  Neither function raises on the documented domain: the division by
  the rate is reached only when the rate is not zero, and the division by the
  number of depreciation periods only with the smaller of term and useful
  life, which is at least one.
\<close>

theorem no_errors_on_domain:
  assumes "0 \<le> pmt" and "0 \<le> r" and "0 \<le> k"
    and "1 \<le> lease_term" and "0 \<le> annual_payment" and "0 \<le> rate" and "1 \<le> useful_life"
  shows "(\<exists>v. pv_ordinary_annuity pmt r k = Inr v) \<and>
     (\<exists>res. compute_lease lease_term annual_payment rate pay_in_advance idc prepaid incentives useful_life = Inr res \<and>
        dep_years res = min lease_term useful_life \<and> 1 \<le> dep_years res \<and>
        py_truediv (rou_initial res) (of_int (dep_years res)) = Inr (annual_dep res))"
proof -
  from compute_lease_result [OF assms(6,4,7)] obtain res where
    "compute_lease lease_term annual_payment rate pay_in_advance idc prepaid incentives useful_life = Inr res"
    "rou_initial res = liability annual_payment rate lease_term pay_in_advance + idc + prepaid - incentives"
    "dep_years res = min lease_term useful_life"
    "annual_dep res = (liability annual_payment rate lease_term pay_in_advance + idc + prepaid - incentives)
        / of_int (min lease_term useful_life)"
    by blast
  moreover have "1 \<le> min lease_term useful_life" and "min lease_term useful_life \<noteq> 0"
    using assms(4,7) by simp_all
  ultimately show ?thesis
    by (simp add: pv_ordinary_annuity_annuity [OF assms(2)] py_truediv_def)
qed

theorem no_errors_on_domain_witness:
  "(0::real) \<le> 25000 \<and> (0::real) \<le> 5 / 100 \<and> (0::int) \<le> 3 \<and> (1::int) \<le> 4 \<and>
   (\<exists>v. pv_ordinary_annuity 25000 (5 / 100) 3 = Inr v) \<and>
   (\<exists>res. compute_lease 4 25000 (5 / 100) True 0 0 0 4 = Inr res \<and> dep_years res = 4)"
  using no_errors_on_domain [of 25000 "5 / 100" 3 4 25000 "5 / 100" 4 True 0 0 0] by auto

text \<open>
  Claim C1.  In the final period the principal reduction is forced to the
  opening balance and the payment to interest plus principal reduction, so the
  last row of the schedule closes at zero (in particular within \<open>1e-6\<close>).
\<close>

theorem final_period_balloon:
  assumes "1 \<le> lease_term" and "0 \<le> rate" and "1 \<le> useful_life"
  shows "\<exists>res.
     compute_lease lease_term annual_payment rate pay_in_advance idc prepaid incentives useful_life = Inr res \<and>
     schedule res \<noteq> [] \<and>
     Period (last (schedule res)) = lease_term \<and>
     Principal (last (schedule res)) = Opening (last (schedule res)) \<and>
     Payment (last (schedule res)) = Interest (last (schedule res)) + Principal (last (schedule res)) \<and>
     Closing (last (schedule res)) = 0 \<and>
     \<bar>Closing (last (schedule res))\<bar> < 1 / 10 ^ 6"
proof -
  let ?L = "liability annual_payment rate lease_term pay_in_advance"
  from compute_lease_result [OF assms(2,1,3)] obtain res where res:
    "compute_lease lease_term annual_payment rate pay_in_advance idc prepaid incentives useful_life = Inr res"
    "pay_in_advance \<Longrightarrow> schedule res =
       advance_row annual_payment ?L #
       schedule_loop lease_term annual_payment rate 1 (Closing (advance_row annual_payment ?L)) []"
    "\<not> pay_in_advance \<Longrightarrow> schedule res = schedule_loop lease_term annual_payment rate 1 ?L []"
    by blast
  define b where "b = (if pay_in_advance then Closing (advance_row annual_payment ?L) else ?L)"
  let ?rows = "schedule_loop lease_term annual_payment rate 1 b []"
  have nonempty: "?rows \<noteq> []" using assms(1) by (simp add: schedule_loop_Nil_iff)
  have sched: "schedule res = (if pay_in_advance then advance_row annual_payment ?L # ?rows else ?rows)"
    using res(2,3) by (simp add: b_def)
  then have "schedule res \<noteq> []" and "last (schedule res) = last ?rows"
    using nonempty by simp_all
  moreover obtain b' where "last ?rows = period_row lease_term annual_payment rate lease_term b'"
    using last_schedule_loop [OF assms(1), of annual_payment rate b] by blast
  ultimately show ?thesis using res(1) by simp
qed

theorem final_period_balloon_witness:
  "(1::int) \<le> 4 \<and> (0::real) \<le> 5 / 100 \<and>
   (\<exists>res. compute_lease 4 25000 (5 / 100) False 0 0 0 4 = Inr res \<and>
      Period (last (schedule res)) = 4 \<and>
      Principal (last (schedule res)) = Opening (last (schedule res)) \<and>
      Closing (last (schedule res)) = 0)"
  using final_period_balloon [of 4 "5 / 100" 4 25000 False 0 0 0] by auto

text \<open>
  Claim C10.  For a lease paid in advance the period-0 opening balance is the
  payment plus a non-negative present value, hence at least the payment: the
  clamp \<open>min(pmt, opening)\<close> is the payment, the period-0 principal reduction is
  the payment, and the row satisfies payment = interest + principal reduction
  with no interest.
\<close>

theorem advance_row_principal_is_payment:
  assumes "1 \<le> lease_term" and "0 \<le> annual_payment" and "0 \<le> rate" and "1 \<le> useful_life"
  shows "\<exists>res v.
     compute_lease lease_term annual_payment rate True idc prepaid incentives useful_life = Inr res \<and>
     pv_ordinary_annuity annual_payment rate (lease_term - 1) = Inr v \<and>
     schedule res \<noteq> [] \<and>
     Period (hd (schedule res)) = 0 \<and>
     Opening (hd (schedule res)) = annual_payment + v \<and>
     annual_payment \<le> Opening (hd (schedule res)) \<and>
     min annual_payment (Opening (hd (schedule res))) = annual_payment \<and>
     Principal (hd (schedule res)) = annual_payment \<and>
     Interest (hd (schedule res)) = 0 \<and>
     Payment (hd (schedule res)) = Interest (hd (schedule res)) + Principal (hd (schedule res))"
proof -
  let ?L = "liability annual_payment rate lease_term True"
  from compute_lease_result [OF assms(3,1,4)] obtain res where res:
    "compute_lease lease_term annual_payment rate True idc prepaid incentives useful_life = Inr res"
    "schedule res =
       advance_row annual_payment ?L #
       schedule_loop lease_term annual_payment rate 1 (Closing (advance_row annual_payment ?L)) []"
    by blast
  have "0 \<le> annuity annual_payment rate (lease_term - 1)"
    using assms(1,2,3) by (intro annuity_nonneg) simp_all
  then have "annual_payment \<le> ?L" by (simp add: liability_def)
  then show ?thesis using res
    by (simp add: pv_ordinary_annuity_annuity [OF assms(3)] liability_def)
qed

theorem advance_row_principal_is_payment_witness:
  "(1::int) \<le> 4 \<and> (0::real) \<le> 25000 \<and> (0::real) \<le> 5 / 100 \<and>
   (\<exists>res. compute_lease 4 25000 (5 / 100) True 0 0 0 4 = Inr res \<and>
      Opening (hd (schedule res)) = 862025000 / 9261 \<and>
      Principal (hd (schedule res)) = 25000 \<and>
      Interest (hd (schedule res)) = 0 \<and>
      Payment (hd (schedule res)) = 25000)"
  using advance_row_principal_is_payment [of 4 25000 "5 / 100" 4 0 0 0]
  unfolding advance_scenario_result by auto

text \<open>
  Claim C6, as it is written, gives 88,664.90 for the initial liability of the
  default inputs, and figures derived from it.  The annuity formula of the
  source gives 17240500000 / 194481, about 88,648.76: every quoted figure but
  the final closing balance is off by more than the rounding of a cent.
\<close>

theorem default_scenario_counterexample:
  "\<not> isl (compute_lease 4 25000 (5 / 100) False 0 0 0 4) \<and>
   16 < 88664.90 - lease_liability_initial (projr (compute_lease 4 25000 (5 / 100) False 0 0 0 4)) \<and>
   16 < 88664.90 - rou_initial (projr (compute_lease 4 25000 (5 / 100) False 0 0 0 4)) \<and>
   4 < 22166.22 - annual_dep (projr (compute_lease 4 25000 (5 / 100) False 0 0 0 4)) \<and>
   0.8 < 4433.25 - Interest (schedule (projr (compute_lease 4 25000 (5 / 100) False 0 0 0 4)) ! 0) \<and>
   0.8 < Principal (schedule (projr (compute_lease 4 25000 (5 / 100) False 0 0 0 4)) ! 0) - 20566.75 \<and>
   16 < 68098.15 - Closing (schedule (projr (compute_lease 4 25000 (5 / 100) False 0 0 0 4)) ! 0)"
  unfolding default_scenario_result by simp

text \<open>
  Claim C6, amended.  For the default inputs the initial liability and the
  right-of-use asset are 88,648.76, the annual depreciation is 22,162.19, the
  schedule has four rows, row 1 has interest 4,432.44, principal reduction
  20,567.56 and closing balance 68,081.20 (all to the nearest cent), and row 4
  closes at zero.
\<close>

theorem default_scenario_figures:
  "\<exists>res. compute_lease 4 25000 (5 / 100) False 0 0 0 4 = Inr res \<and>
     \<bar>lease_liability_initial res - 88648.76\<bar> < 0.005 \<and>
     \<bar>rou_initial res - 88648.76\<bar> < 0.005 \<and>
     \<bar>annual_dep res - 22162.19\<bar> < 0.005 \<and>
     length (schedule res) = 4 \<and>
     Period (schedule res ! 0) = 1 \<and>
     Period (schedule res ! 3) = 4 \<and>
     \<bar>Interest (schedule res ! 0) - 4432.44\<bar> < 0.005 \<and>
     \<bar>Principal (schedule res ! 0) - 20567.56\<bar> < 0.005 \<and>
     \<bar>Closing (schedule res ! 0) - 68081.20\<bar> < 0.005 \<and>
     Closing (schedule res ! 3) = 0"
  unfolding default_scenario_result by simp

text \<open>
  Claim C4, as it is written, asks for payment = interest + principal
  reduction in every row of the loop.  In a row before the last the source
  stores the payment and, as principal reduction, the rounded difference of
  payment and interest; adding the interest back does not give the payment
  again when that difference was rounded.  With two periods in arrears,
  24999.99 per period and 10 per cent, the first row has the payment
  24999.99, while the stored interest and principal reduction add up to
  \<open>2 ^ - 39\<close> more, and Python's \<^verbatim>\<open>interest + principal\<close> is 24999.990000000005,
  the next double.
\<close>

theorem row_payment_counterexample:
  "fl_truediv (Double 2499999 0) (Double 100 0) = Inr (Double 6871944924820931 (- 38)) \<and>
   fl_truediv (Double 10 0) (Double 100 0) = Inr (Double 7205759403792794 (- 56)) \<and>
   \<not> isl (compute_lease_d 2 (Double 6871944924820931 (- 38)) (Double 7205759403792794 (- 56)) False
      (Double 0 0) (Double 0 0) (Double 0 0) 4) \<and>
   Period_d (schedule_d (projr (compute_lease_d 2 (Double 6871944924820931 (- 38))
      (Double 7205759403792794 (- 56)) False (Double 0 0) (Double 0 0) (Double 0 0) 4)) ! 0) = 1 \<and>
   Payment_d (schedule_d (projr (compute_lease_d 2 (Double 6871944924820931 (- 38))
      (Double 7205759403792794 (- 56)) False (Double 0 0) (Double 0 0) (Double 0 0) 4)) ! 0) =
     Double 6871944924820931 (- 38) \<and>
   fl_add
     (Interest_d (schedule_d (projr (compute_lease_d 2 (Double 6871944924820931 (- 38))
        (Double 7205759403792794 (- 56)) False (Double 0 0) (Double 0 0) (Double 0 0) 4)) ! 0))
     (Principal_d (schedule_d (projr (compute_lease_d 2 (Double 6871944924820931 (- 38))
        (Double 7205759403792794 (- 56)) False (Double 0 0) (Double 0 0) (Double 0 0) 4)) ! 0)) =
     Double 6871944924820932 (- 38) \<and>
   dval (Double 6871944924820932 (- 38)) - dval (Double 6871944924820931 (- 38)) = 1 / 2 ^ 38 \<and>
   dval (Interest_d (schedule_d (projr (compute_lease_d 2 (Double 6871944924820931 (- 38))
        (Double 7205759403792794 (- 56)) False (Double 0 0) (Double 0 0) (Double 0 0) 4)) ! 0)) +
   dval (Principal_d (schedule_d (projr (compute_lease_d 2 (Double 6871944924820931 (- 38))
        (Double 7205759403792794 (- 56)) False (Double 0 0) (Double 0 0) (Double 0 0) 4)) ! 0)) -
   dval (Payment_d (schedule_d (projr (compute_lease_d 2 (Double 6871944924820931 (- 38))
        (Double 7205759403792794 (- 56)) False (Double 0 0) (Double 0 0) (Double 0 0) 4)) ! 0)) =
     1 / 2 ^ 39"
  unfolding rounding_scenario_result
  by (simp add: rounding_scenario_inputs power_int_minus)

text \<open>
  Claim C4, amended.  In every row other than the period-0 row of a lease paid
  in advance, interest is opening times rate and closing is opening minus
  principal reduction, as the double operations give them.  In the last
  period, payment is interest plus principal reduction.  In every earlier
  period the payment is the periodic payment, the principal reduction is
  payment minus interest as a double, and payment differs from the sum of
  interest and principal reduction by at most the error of that one rounding.
  The period-0 row has no interest, and every row opens at the closing balance
  of the row before it.
\<close>

theorem row_consistency_in_doubles:
  assumes "1 \<le> lease_term" and "0 \<le> mant rate" and "1 \<le> useful_life"
  shows "\<exists>res.
     compute_lease_d lease_term annual_payment rate pay_in_advance idc prepaid incentives useful_life = Inr res \<and>
     (\<forall>row \<in> set (schedule_d res). \<not> (pay_in_advance \<and> Period_d row = 0) \<longrightarrow>
        Interest_d row = fl_mul (Opening_d row) rate \<and>
        Closing_d row = fl_sub (Opening_d row) (Principal_d row) \<and>
        (Period_d row = lease_term \<longrightarrow>
           Payment_d row = fl_add (Interest_d row) (Principal_d row)) \<and>
        (Period_d row \<noteq> lease_term \<longrightarrow>
           Payment_d row = annual_payment \<and>
           Principal_d row = fl_sub (Payment_d row) (Interest_d row) \<and>
           \<bar>dval (Payment_d row) - (dval (Interest_d row) + dval (Principal_d row))\<bar>
             \<le> rounding_bound (dval (Payment_d row) - dval (Interest_d row)))) \<and>
     (pay_in_advance \<longrightarrow>
        Period_d (hd (schedule_d res)) = 0 \<and> Interest_d (hd (schedule_d res)) = Double 0 0) \<and>
     successively (\<lambda>a b. Opening_d b = Closing_d a) (schedule_d res)"
proof -
  from compute_lease_d_result [OF assms(2,1,3)] obtain res L where res:
    "compute_lease_d lease_term annual_payment rate pay_in_advance idc prepaid incentives useful_life = Inr res"
    "pay_in_advance \<Longrightarrow> schedule_d res =
       advance_row_d annual_payment L #
       schedule_loop_d lease_term annual_payment rate 1 (Closing_d (advance_row_d annual_payment L)) []"
    "\<not> pay_in_advance \<Longrightarrow> schedule_d res = schedule_loop_d lease_term annual_payment rate 1 L []"
    by blast
  define b where "b = (if pay_in_advance then Closing_d (advance_row_d annual_payment L) else L)"
  let ?rows = "schedule_loop_d lease_term annual_payment rate 1 b []"
  let ?ok = "\<lambda>row. Interest_d row = fl_mul (Opening_d row) rate \<and>
        Closing_d row = fl_sub (Opening_d row) (Principal_d row) \<and>
        (Period_d row = lease_term \<longrightarrow>
           Payment_d row = fl_add (Interest_d row) (Principal_d row)) \<and>
        (Period_d row \<noteq> lease_term \<longrightarrow>
           Payment_d row = annual_payment \<and>
           Principal_d row = fl_sub (Payment_d row) (Interest_d row) \<and>
           \<bar>dval (Payment_d row) - (dval (Interest_d row) + dval (Principal_d row))\<bar>
             \<le> rounding_bound (dval (Payment_d row) - dval (Interest_d row)))"
  have sched: "schedule_d res = (if pay_in_advance then advance_row_d annual_payment L # ?rows else ?rows)"
    using res(2,3) by (simp add: b_def)
  have one: "?ok (period_row_d lease_term annual_payment rate t c)" for t c
  proof -
    have "\<bar>dval annual_payment - (dval (fl_mul c rate) + dval (fl_sub annual_payment (fl_mul c rate)))\<bar>
        = \<bar>dval (fl_sub annual_payment (fl_mul c rate)) - (dval annual_payment - dval (fl_mul c rate))\<bar>"
      by (simp add: abs_minus_commute algebra_simps)
    also have "\<dots> \<le> rounding_bound (dval annual_payment - dval (fl_mul c rate))"
      by (rule dval_fl_sub_error)
    finally show ?thesis by simp
  qed
  have rows: "\<forall>row \<in> set ?rows. ?ok row \<and> 1 \<le> Period_d row"
  proof
    fix row assume "row \<in> set ?rows"
    with rows_of_schedule_loop_d [of lease_term annual_payment rate 1 b]
    obtain c where "row = period_row_d lease_term annual_payment rate (Period_d row) c"
      and "1 \<le> Period_d row" by blast
    then show "?ok row \<and> 1 \<le> Period_d row" using one [of "Period_d row" c] by metis
  qed
  have linked: "successively (\<lambda>a b. Opening_d b = Closing_d a) ?rows"
    by (rule linked_schedule_loop_d)
  have first: "Opening_d (hd ?rows) = b"
    using assms(1) by (simp add: hd_schedule_loop_d)
  have all: "\<forall>row \<in> set (schedule_d res). \<not> (pay_in_advance \<and> Period_d row = 0) \<longrightarrow> ?ok row"
  proof (intro ballI impI)
    fix row
    assume member: "row \<in> set (schedule_d res)" and other: "\<not> (pay_in_advance \<and> Period_d row = 0)"
    have "row \<in> set ?rows"
    proof (cases pay_in_advance)
      case True
      with other have "row \<noteq> advance_row_d annual_payment L" by auto
      with member sched True show ?thesis by simp
    next
      case False
      with member sched show ?thesis by simp
    qed
    with rows have "?ok row \<and> 1 \<le> Period_d row" by (rule bspec)
    then show "?ok row" by (rule conjunct1)
  qed
  have zero: "pay_in_advance \<longrightarrow>
      Period_d (hd (schedule_d res)) = 0 \<and> Interest_d (hd (schedule_d res)) = Double 0 0"
    using sched by simp
  have "successively (\<lambda>a b. Opening_d b = Closing_d a) (advance_row_d annual_payment L # ?rows)"
    if pay_in_advance
    using that linked first by (simp add: successively_Cons b_def)
  then have chain: "successively (\<lambda>a b. Opening_d b = Closing_d a) (schedule_d res)"
    using sched linked by (cases pay_in_advance) simp_all
  from res(1) all zero chain show ?thesis by blast
qed

theorem row_consistency_in_doubles_witness:
  "(1::int) \<le> 2 \<and> 0 \<le> mant (Double 7205759403792794 (- 56)) \<and> (1::int) \<le> 4 \<and>
   (\<exists>res.
     compute_lease_d 2 (Double 6871944924820931 (- 38)) (Double 7205759403792794 (- 56)) False
        (Double 0 0) (Double 0 0) (Double 0 0) 4 = Inr res \<and>
     (\<forall>row \<in> set (schedule_d res). \<not> (False \<and> Period_d row = 0) \<longrightarrow>
        Interest_d row = fl_mul (Opening_d row) (Double 7205759403792794 (- 56)) \<and>
        Closing_d row = fl_sub (Opening_d row) (Principal_d row) \<and>
        (Period_d row = 2 \<longrightarrow>
           Payment_d row = fl_add (Interest_d row) (Principal_d row)) \<and>
        (Period_d row \<noteq> 2 \<longrightarrow>
           Payment_d row = Double 6871944924820931 (- 38) \<and>
           Principal_d row = fl_sub (Payment_d row) (Interest_d row) \<and>
           \<bar>dval (Payment_d row) - (dval (Interest_d row) + dval (Principal_d row))\<bar>
             \<le> rounding_bound (dval (Payment_d row) - dval (Interest_d row)))) \<and>
     (False \<longrightarrow>
        Period_d (hd (schedule_d res)) = 0 \<and> Interest_d (hd (schedule_d res)) = Double 0 0) \<and>
     successively (\<lambda>a b. Opening_d b = Closing_d a) (schedule_d res)) \<and>
   map Period_d (schedule_d (projr (compute_lease_d 2 (Double 6871944924820931 (- 38))
      (Double 7205759403792794 (- 56)) False (Double 0 0) (Double 0 0) (Double 0 0) 4))) = [1, 2]"
proof -
  have h1: "(1::int) \<le> 2" and h2: "0 \<le> mant (Double 7205759403792794 (- 56))" and h3: "(1::int) \<le> 4"
    by simp_all
  have periods: "map Period_d (schedule_d (projr (compute_lease_d 2 (Double 6871944924820931 (- 38))
      (Double 7205759403792794 (- 56)) False (Double 0 0) (Double 0 0) (Double 0 0) 4))) = [1, 2]"
    unfolding rounding_scenario_result by simp
  show ?thesis
    by (intro conjI h1 h2 h3 periods row_consistency_in_doubles [OF h1 h2 h3])
qed

end
